theory Spec2Isabelle
  imports Main
begin

section \<open>Text\<close>

text \<open>
  A Python \<open>str\<close> is a sequence of Unicode code points and \<open>len\<close> counts code points.
  A text is therefore a list of code points, each a natural number, and not a list of
  8-bit \<open>char\<close>s.
\<close>

type_synonym ustr = "nat list"

abbreviation NL :: nat where "NL \<equiv> 0x0A"
abbreviation TAB :: nat where "TAB \<equiv> 0x09"
abbreviation SP :: nat where "SP \<equiv> 0x20"

text \<open>ASCII literals of the source are written as HOL strings and converted.\<close>

definition ascii :: "string \<Rightarrow> ustr" where
  "ascii s = map of_char s"

text \<open>
  \<open>str.strip()\<close> without argument removes the code points for which \<open>str.isspace\<close>
  holds from both ends.
\<close>

definition is_space :: "nat \<Rightarrow> bool" where
  "is_space c =
     ((0x09 \<le> c \<and> c \<le> 0x0D) \<or> (0x1C \<le> c \<and> c \<le> 0x20) \<or> c = 0x85 \<or> c = 0xA0
      \<or> c = 0x1680 \<or> (0x2000 \<le> c \<and> c \<le> 0x200A) \<or> c = 0x2028 \<or> c = 0x2029
      \<or> c = 0x202F \<or> c = 0x205F \<or> c = 0x3000)"

definition strip :: "ustr \<Rightarrow> ustr" where
  "strip t = rev (dropWhile is_space (rev (dropWhile is_space t)))"

text \<open>\<open>t.replace(a, b)\<close> for one-character \<open>a\<close> and \<open>b\<close>.\<close>

definition replace_char :: "nat \<Rightarrow> nat \<Rightarrow> ustr \<Rightarrow> ustr" where
  "replace_char a b t = map (\<lambda>c. if c = a then b else c) t"

text \<open>
  \<open>re.sub("[...]+", r, text)\<close> for a character class and a one-character replacement:
  scanning from the left, every maximal run of code points of the class is replaced by
  \<open>r\<close>; everything else is copied.
\<close>

function re_sub_plus :: "(nat \<Rightarrow> bool) \<Rightarrow> nat \<Rightarrow> ustr \<Rightarrow> ustr" where
  "re_sub_plus cls r [] = []"
| "re_sub_plus cls r (c # cs) =
     (if cls c then r # re_sub_plus cls r (dropWhile cls cs) else c # re_sub_plus cls r cs)"
  by pat_completeness auto
termination
  by (relation "measure (\<lambda>(cls, r, t). length t)")
    (auto simp: less_Suc_eq_le length_dropWhile_le)

text \<open>
  \<open>re.sub(r"\n{2,}", "\n", text)\<close>: a match needs two newlines at the current position
  and then takes the whole run; a single newline is copied.
\<close>

function sub_newlines :: "ustr \<Rightarrow> ustr" where
  "sub_newlines [] = []"
| "sub_newlines [c] = [c]"
| "sub_newlines (c # d # cs) =
     (if c = NL \<and> d = NL then NL # sub_newlines (dropWhile (\<lambda>x. x = NL) cs)
      else c # sub_newlines (d # cs))"
  by pat_completeness auto
termination
  by (relation "measure length") (auto simp: less_Suc_eq_le le_SucI length_dropWhile_le)

text \<open>\<open>"\n".join(parts)\<close>.\<close>

fun join_nl :: "ustr list \<Rightarrow> ustr" where
  "join_nl [] = []"
| "join_nl [p] = p"
| "join_nl (p # q # ps) = p @ NL # join_nl (q # ps)"

text \<open>\<open>x or ""\<close> for an optional text: \<open>None\<close> and the empty text give the empty text.\<close>

definition or_empty :: "ustr option \<Rightarrow> ustr" where
  "or_empty x = (case x of None \<Rightarrow> [] | Some t \<Rightarrow> t)"

text \<open>The decimal digits of an integer, as \<open>str\<close> and an f-string field print it.\<close>

function str_nat :: "nat \<Rightarrow> ustr" where
  "str_nat n = (if n < 10 then [0x30 + n] else str_nat (n div 10) @ [0x30 + n mod 10])"
  by pat_completeness auto
termination
  by (relation "measure id") auto

declare str_nat.simps [simp del]

definition str_int :: "int \<Rightarrow> ustr" where
  "str_int i = (if i < 0 then 0x2D # str_nat (nat (- i)) else str_nat (nat i))"

text \<open>
  The adjacency test used to state the normal form: \<open>no_adj a t\<close> holds when \<open>t\<close> has
  no two neighbouring occurrences of \<open>a\<close>.
\<close>

fun no_adj :: "nat \<Rightarrow> ustr \<Rightarrow> bool" where
  "no_adj a (x # y # ys) = ((x \<noteq> a \<or> y \<noteq> a) \<and> no_adj a (y # ys))"
| "no_adj a _ = True"

section \<open>Configuration and utilities\<close>

definition DOWNLOAD_DIR :: ustr where
  "DOWNLOAD_DIR = ascii ''downloads''"

definition MAX_CONTEXT_CHARS :: nat where
  "MAX_CONTEXT_CHARS = 15000"

definition MAX_FILE_MB :: int where
  "MAX_FILE_MB = 20"

abbreviation YEH_ARABIC :: nat where "YEH_ARABIC \<equiv> 0x64A"
abbreviation YEH_FARSI :: nat where "YEH_FARSI \<equiv> 0x6CC"
abbreviation KAF_ARABIC :: nat where "KAF_ARABIC \<equiv> 0x643"
abbreviation KEHEH :: nat where "KEHEH \<equiv> 0x6A9"

text \<open>The class \<open>[ \t]\<close>.\<close>

definition is_hspace :: "nat \<Rightarrow> bool" where
  "is_hspace c = (c = SP \<or> c = TAB)"

definition normalize_persian :: "ustr \<Rightarrow> ustr" where
  "normalize_persian text =
     strip (sub_newlines (re_sub_plus is_hspace SP
       (replace_char KAF_ARABIC KEHEH (replace_char YEH_ARABIC YEH_FARSI text))))"

text \<open>The class \<open>[a-zA-Z0-9_.\-\u0600-\u06FF]\<close>, which \<open>safe_unique_path\<close> negates.\<close>

definition is_name_char :: "nat \<Rightarrow> bool" where
  "is_name_char c =
     ((0x61 \<le> c \<and> c \<le> 0x7A) \<or> (0x41 \<le> c \<and> c \<le> 0x5A) \<or> (0x30 \<le> c \<and> c \<le> 0x39)
      \<or> c = 0x5F \<or> c = 0x2E \<or> c = 0x2D \<or> (0x600 \<le> c \<and> c \<le> 0x6FF))"

definition file_too_large :: "int \<Rightarrow> bool" where
  "file_too_large size_bytes = (size_bytes > MAX_FILE_MB * 1024 * 1024)"

section \<open>The world outside the program\<close>

text \<open>
  An exception carries whether it is an instance of \<open>Exception\<close> (a \<open>BaseException\<close>
  such as a cancellation is not) and its \<open>repr\<close>.
\<close>

datatype exn = Exn (is_Exception: bool) (repr: ustr)

text \<open>
  The libraries and services the program calls are parameters: the random identifier,
  the standard library's \<open>os.path.splitext\<close> and \<open>str.lower\<close>, the four extraction
  libraries, which either raise or return raw text (per page or per paragraph), and the
  generation backend, which either raises or returns a response whose \<open>text\<close> may be
  \<open>None\<close>. The chat transport is assumed to deliver every reply.
\<close>

record world =
  uuid4_hex :: ustr
  splitext :: "ustr \<Rightarrow> ustr \<times> ustr"
  lower :: "ustr \<Rightarrow> ustr"
  fitz_pages :: "ustr \<Rightarrow> exn + ustr list"
  image_to_string :: "ustr \<Rightarrow> exn + ustr"
  docx_paragraphs :: "ustr \<Rightarrow> exn + ustr list"
  read_txt :: "ustr \<Rightarrow> exn + ustr"
  generate_content :: "ustr \<Rightarrow> exn + ustr option"

definition safe_unique_path :: "world \<Rightarrow> ustr option \<Rightarrow> ustr \<Rightarrow> ustr" where
  "safe_unique_path w original_name suffix =
     (let name = (if or_empty original_name = [] then ascii ''file'' @ suffix
                  else or_empty original_name);
          name = re_sub_plus (\<lambda>c. \<not> is_name_char c) 0x5F name;
          uid = take 10 (uuid4_hex w)
      in DOWNLOAD_DIR @ ascii ''/'' @ uid @ ascii ''_'' @ name)"

section \<open>Text extraction\<close>

definition extract_text :: "world \<Rightarrow> ustr \<Rightarrow> exn + ustr" where
  "extract_text w path =
     (let ext = lower w (snd (splitext w path)) in
      if ext = ascii ''.pdf'' then
        (case fitz_pages w path of
           Inl e \<Rightarrow> Inl e
         | Inr out \<Rightarrow> Inr (normalize_persian (join_nl out)))
      else if ext \<in> set [ascii ''.png'', ascii ''.jpg'', ascii ''.jpeg'', ascii ''.webp''] then
        (case image_to_string w path of
           Inl e \<Rightarrow> Inl e
         | Inr text \<Rightarrow> Inr (normalize_persian text))
      else if ext = ascii ''.docx'' then
        (case docx_paragraphs w path of
           Inl e \<Rightarrow> Inl e
         | Inr ps \<Rightarrow> Inr (normalize_persian (join_nl ps)))
      else if ext = ascii ''.txt'' then
        (case read_txt w path of
           Inl e \<Rightarrow> Inl e
         | Inr text \<Rightarrow> Inr (normalize_persian text))
      else Inr (normalize_persian []))"

section \<open>The generation call\<close>

definition gemini_answer :: "world \<Rightarrow> ustr \<Rightarrow> exn + ustr" where
  "gemini_answer w prompt =
     (case generate_content w prompt of
        Inl e \<Rightarrow> Inl e
      | Inr resp_text \<Rightarrow> Inr (strip (or_empty resp_text)))"

section \<open>Messages\<close>

text \<open>The literals of the handlers, as code points.\<close>

definition BTN_FORGET :: ustr where
  "BTN_FORGET =
    [0x641, 0x631, 0x627, 0x645, 0x648, 0x634, 0x6CC, 0x20, 0x1F5D1]"

definition BTN_START :: ustr where
  "BTN_START =
    [0x634, 0x631, 0x648, 0x639, 0x20, 0x1F4C4]"

definition MSG_FORGOTTEN :: ustr where
  "MSG_FORGOTTEN =
    [0x2705, 0x20, 0x641, 0x627, 0x6CC, 0x644, 0x20, 0x642, 0x628, 0x644, 0x6CC, 0x20,
     0x641, 0x631, 0x627, 0x645, 0x648, 0x634, 0x20, 0x634, 0x62F, 0x2E, 0xA, 0x1F4C4,
     0x20, 0x641, 0x627, 0x6CC, 0x644, 0x20, 0x62C, 0x62F, 0x6CC, 0x62F, 0x20, 0x627,
     0x631, 0x633, 0x627, 0x644, 0x20, 0x6A9, 0x646, 0x2E]"

definition MSG_SEND_FILE :: ustr where
  "MSG_SEND_FILE =
    [0x1F4C4, 0x20, 0x644, 0x637, 0x641, 0x627, 0x64B, 0x20, 0x641, 0x627, 0x6CC, 0x644,
     0x20, 0x631, 0x627, 0x20, 0x627, 0x631, 0x633, 0x627, 0x644, 0x20, 0x6A9, 0x646, 0x2E]"

definition MSG_TOO_LARGE_PREFIX :: ustr where
  "MSG_TOO_LARGE_PREFIX =
    [0x274C, 0x20, 0x641, 0x627, 0x6CC, 0x644, 0x20, 0x62E, 0x6CC, 0x644, 0x6CC, 0x20,
     0x628, 0x632, 0x631, 0x6AF, 0x647, 0x2E, 0x20, 0x28, 0x62D, 0x62F, 0x627, 0x6A9,
     0x62B, 0x631, 0x20]"

definition MSG_EXTRACTING :: ustr where
  "MSG_EXTRACTING =
    [0x23F3, 0x20, 0x62F, 0x631, 0x20, 0x62D, 0x627, 0x644, 0x20, 0x627, 0x633, 0x62A,
     0x62E, 0x631, 0x627, 0x62C, 0x20, 0x645, 0x62A, 0x646, 0x2E, 0x2E, 0x2E]"

definition MSG_NO_TEXT :: ustr where
  "MSG_NO_TEXT =
    [0x274C, 0x20, 0x645, 0x62A, 0x646, 0x20, 0x642, 0x627, 0x628, 0x644, 0x200C, 0x627,
     0x633, 0x62A, 0x641, 0x627, 0x62F, 0x647, 0x200C, 0x627, 0x6CC, 0x20, 0x627, 0x633,
     0x62A, 0x62E, 0x631, 0x627, 0x62C, 0x20, 0x646, 0x634, 0x62F, 0x2E]"

definition MSG_EXTRACTED :: ustr where
  "MSG_EXTRACTED =
    [0x2705, 0x20, 0x645, 0x62A, 0x646, 0x20, 0x627, 0x633, 0x62A, 0x62E, 0x631, 0x627,
     0x62C, 0x20, 0x634, 0x62F, 0x2E, 0xA, 0x2753, 0x20, 0x62D, 0x627, 0x644, 0x627, 0x20,
     0x633, 0x624, 0x627, 0x644, 0x20, 0x62E, 0x648, 0x62F, 0x62A, 0x20, 0x631, 0x648,
     0x20, 0x628, 0x67E, 0x631, 0x633, 0x2E]"

definition MSG_OCR :: ustr where
  "MSG_OCR =
    [0x23F3, 0x20, 0x62F, 0x631, 0x20, 0x62D, 0x627, 0x644, 0x20, 0x4F, 0x43, 0x52, 0x20,
     0x639, 0x6A9, 0x633, 0x2E, 0x2E, 0x2E]"

definition MSG_NO_TEXT_PHOTO :: ustr where
  "MSG_NO_TEXT_PHOTO =
    [0x274C, 0x20, 0x645, 0x62A, 0x646, 0x20, 0x642, 0x627, 0x628, 0x644, 0x200C, 0x627,
     0x633, 0x62A, 0x641, 0x627, 0x62F, 0x647, 0x200C, 0x627, 0x6CC, 0x20, 0x627, 0x632,
     0x20, 0x639, 0x6A9, 0x633, 0x20, 0x627, 0x633, 0x62A, 0x62E, 0x631, 0x627, 0x62C,
     0x20, 0x646, 0x634, 0x62F, 0x2E]"

definition GROUNDED_HEAD :: ustr where
  "GROUNDED_HEAD =
    [0xA, 0x62A, 0x648, 0x20, 0x6CC, 0x6A9, 0x20, 0x62F, 0x633, 0x62A, 0x6CC, 0x627, 0x631,
     0x20, 0x67E, 0x627, 0x633, 0x62E, 0x200C, 0x6AF, 0x648, 0x6CC, 0x6CC, 0x20, 0x647,
     0x633, 0x62A, 0x6CC, 0x2E, 0xA, 0x627, 0x648, 0x644, 0x20, 0x645, 0x62A, 0x646, 0x20,
     0x631, 0x627, 0x20, 0x62F, 0x631, 0x20, 0x646, 0x638, 0x631, 0x20, 0x628, 0x6AF,
     0x6CC, 0x631, 0x20, 0x648, 0x20, 0x628, 0x639, 0x62F, 0x20, 0x628, 0x647, 0x20, 0x633,
     0x624, 0x627, 0x644, 0x20, 0x62C, 0x648, 0x627, 0x628, 0x20, 0x628, 0x62F, 0x647,
     0x2E, 0xA, 0x627, 0x6AF, 0x631, 0x20, 0x67E, 0x627, 0x633, 0x62E, 0x20, 0x62F, 0x631,
     0x20, 0x645, 0x62A, 0x646, 0x20, 0x646, 0x628, 0x648, 0x62F, 0x60C, 0x20, 0x635,
     0x631, 0x6CC, 0x62D, 0x20, 0x628, 0x6AF, 0x648, 0x3A, 0xA, 0xAB, 0x627, 0x6CC, 0x646,
     0x20, 0x627, 0x637, 0x644, 0x627, 0x639, 0x627, 0x62A, 0x20, 0x62F, 0x631, 0x20,
     0x645, 0x62A, 0x646, 0x20, 0x645, 0x648, 0x62C, 0x648, 0x62F, 0x20, 0x646, 0x6CC,
     0x633, 0x62A, 0x2E, 0xBB, 0xA, 0xA, 0x645, 0x62A, 0x646, 0x3A, 0xA]"

definition GROUNDED_MID :: ustr where
  "GROUNDED_MID =
    [0xA, 0xA, 0x633, 0x624, 0x627, 0x644, 0x3A, 0xA]"

definition OPEN_HEAD :: ustr where
  "OPEN_HEAD =
    [0x628, 0x647, 0x20, 0x627, 0x6CC, 0x646, 0x20, 0x633, 0x624, 0x627, 0x644, 0x20,
     0x62F, 0x642, 0x6CC, 0x642, 0x20, 0x648, 0x20, 0x648, 0x627, 0x636, 0x62D, 0x20,
     0x62C, 0x648, 0x627, 0x628, 0x20, 0x628, 0x62F, 0x647, 0x3A, 0xA]"

definition MSG_PREPARING :: ustr where
  "MSG_PREPARING =
    [0x1F916, 0x20, 0x62F, 0x627, 0x631, 0x645, 0x20, 0x62C, 0x648, 0x627, 0x628, 0x20,
     0x631, 0x648, 0x20, 0x622, 0x645, 0x627, 0x62F, 0x647, 0x20, 0x645, 0x6CC, 0x200C,
     0x6A9, 0x646, 0x645, 0x2E, 0x2E, 0x2E]"

definition MSG_NO_ANSWER :: ustr where
  "MSG_NO_ANSWER =
    [0x274C, 0x20, 0x67E, 0x627, 0x633, 0x62E, 0x6CC, 0x20, 0x62A, 0x648, 0x644, 0x6CC,
     0x62F, 0x20, 0x646, 0x634, 0x62F, 0x2E]"

definition MSG_GEMINI_ERROR :: ustr where
  "MSG_GEMINI_ERROR =
    [0x274C, 0x20, 0x62E, 0x637, 0x627, 0x20, 0x62F, 0x631, 0x20, 0x627, 0x62A, 0x635,
     0x627, 0x644, 0x2F, 0x67E, 0x627, 0x633, 0x62E, 0x200C, 0x62F, 0x647, 0x6CC, 0x20,
     0x47, 0x65, 0x6D, 0x69, 0x6E, 0x69, 0x2E, 0x20, 0x644, 0x637, 0x641, 0x627, 0x64B,
     0x20, 0x62F, 0x648, 0x628, 0x627, 0x631, 0x647, 0x20, 0x627, 0x645, 0x62A, 0x62D,
     0x627, 0x646, 0x20, 0x6A9, 0x646, 0x2E]"

text \<open>\<open>f"... {MAX_FILE_MB}MB)"\<close>.\<close>

definition MSG_TOO_LARGE :: ustr where
  "MSG_TOO_LARGE = MSG_TOO_LARGE_PREFIX @ str_int MAX_FILE_MB @ ascii ''MB)''"

section \<open>Handlers\<close>

text \<open>
  An update carries the sender, the message text, the attached document and the photo
  sizes (each an opaque file reference); a document carries its declared name and size.
\<close>

record document =
  file_name :: "ustr option"
  file_size :: "int option"

record update =
  from_user_id :: int
  msg_text :: "ustr option"
  msg_document :: "document option"
  msg_photo :: "nat list"

text \<open>What a handler does, in order.\<close>

datatype effect =
  Reply ustr
  | Download ustr
  | Extract ustr
  | Generate ustr
  | Print "ustr list"

text \<open>
  A handler run takes the session store \<open>USER_TEXTS\<close> and gives the store it leaves,
  the effects it performed, and the exception that left it, if any. A raise keeps the
  store and the effects it found.
\<close>

record outcome =
  store :: "int \<rightharpoonup> ustr"
  effects :: "effect list"
  raised :: "exn option"

definition returns :: "(int \<rightharpoonup> ustr) \<Rightarrow> effect list \<Rightarrow> outcome" where
  "returns s es = \<lparr>store = s, effects = es, raised = None\<rparr>"

definition raises :: "(int \<rightharpoonup> ustr) \<Rightarrow> effect list \<Rightarrow> exn \<Rightarrow> outcome" where
  "raises s es e = \<lparr>store = s, effects = es, raised = Some e\<rparr>"

definition handle_buttons :: "(int \<rightharpoonup> ustr) \<Rightarrow> update \<Rightarrow> outcome" where
  "handle_buttons USER_TEXTS upd =
     (let user_id = from_user_id upd;
          text = strip (or_empty (msg_text upd))
      in if text = BTN_FORGET then
           returns (USER_TEXTS(user_id := None)) [Reply MSG_FORGOTTEN]
         else if text = BTN_START then
           returns USER_TEXTS [Reply MSG_SEND_FILE]
         else returns USER_TEXTS [])"

text \<open>The \<open>file_path\<close> of \<open>handle_document\<close> and of \<open>handle_photo\<close>.\<close>

definition document_path :: "world \<Rightarrow> document \<Rightarrow> ustr" where
  "document_path w doc =
     safe_unique_path w (file_name doc) (snd (splitext w (or_empty (file_name doc))))"

definition photo_path :: "world \<Rightarrow> ustr" where
  "photo_path w = safe_unique_path w (Some (ascii ''photo.jpg'')) (ascii ''.jpg'')"

text \<open>\<open>doc.file_size and file_too_large(doc.file_size)\<close>: \<open>None\<close> and 0 are falsy.\<close>

definition size_rejected :: "document \<Rightarrow> bool" where
  "size_rejected doc =
     (case file_size doc of None \<Rightarrow> False | Some n \<Rightarrow> n \<noteq> 0 \<and> file_too_large n)"

definition handle_document :: "world \<Rightarrow> (int \<rightharpoonup> ustr) \<Rightarrow> update \<Rightarrow> outcome" where
  "handle_document w USER_TEXTS upd =
     (let user_id = from_user_id upd in
      case msg_document upd of
        None \<Rightarrow> returns USER_TEXTS []
      | Some doc \<Rightarrow>
          if size_rejected doc then returns USER_TEXTS [Reply MSG_TOO_LARGE]
          else
            let file_path = document_path w doc;
                done = [Download file_path, Reply MSG_EXTRACTING, Extract file_path]
            in case extract_text w file_path of
                 Inl e \<Rightarrow> raises USER_TEXTS done e
               | Inr text \<Rightarrow>
                   if length text < 50 then returns USER_TEXTS (done @ [Reply MSG_NO_TEXT])
                   else returns (USER_TEXTS(user_id \<mapsto> text)) (done @ [Reply MSG_EXTRACTED]))"

definition handle_photo :: "world \<Rightarrow> (int \<rightharpoonup> ustr) \<Rightarrow> update \<Rightarrow> outcome" where
  "handle_photo w USER_TEXTS upd =
     (let user_id = from_user_id upd in
      if msg_photo upd = [] then returns USER_TEXTS []
      else
        let file_path = photo_path w;
            done = [Download file_path, Reply MSG_OCR, Extract file_path]
        in case extract_text w file_path of
             Inl e \<Rightarrow> raises USER_TEXTS done e
           | Inr text \<Rightarrow>
               if length text < 50 then returns USER_TEXTS (done @ [Reply MSG_NO_TEXT_PHOTO])
               else returns (USER_TEXTS(user_id \<mapsto> text)) (done @ [Reply MSG_EXTRACTED]))"

text \<open>
  The prompt of \<open>handle_question\<close>: the grounded template around the first
  \<open>MAX_CONTEXT_CHARS\<close> code points of the stored text, stripped as a whole, when the
  user has a stored text, and the open-domain instruction otherwise.
\<close>

definition question_prompt :: "(int \<rightharpoonup> ustr) \<Rightarrow> int \<Rightarrow> ustr \<Rightarrow> ustr" where
  "question_prompt USER_TEXTS user_id question =
     (case USER_TEXTS user_id of
        Some stored \<Rightarrow>
          (let context_text = take MAX_CONTEXT_CHARS stored
           in strip (GROUNDED_HEAD @ context_text @ GROUNDED_MID @ question @ [NL]))
      | None \<Rightarrow> OPEN_HEAD @ question)"

definition handle_question :: "world \<Rightarrow> (int \<rightharpoonup> ustr) \<Rightarrow> update \<Rightarrow> outcome" where
  "handle_question w USER_TEXTS upd =
     (let user_id = from_user_id upd;
          question = strip (or_empty (msg_text upd))
      in if question = [] then returns USER_TEXTS []
         else
           let prompt = question_prompt USER_TEXTS user_id question;
               done = [Reply MSG_PREPARING, Generate prompt]
           in case gemini_answer w prompt of
                Inr answer \<Rightarrow>
                  returns USER_TEXTS
                    (done @ [Reply (if answer = [] then MSG_NO_ANSWER else answer)])
              | Inl e \<Rightarrow>
                  if is_Exception e then
                    returns USER_TEXTS
                      (done @ [Print [ascii ''Gemini error:'', repr e], Reply MSG_GEMINI_ERROR])
                  else raises USER_TEXTS done e)"

text \<open>Projections of a run: the replies the user receives and the prompts sent out.\<close>

fun replies :: "effect list \<Rightarrow> ustr list" where
  "replies [] = []"
| "replies (Reply m # es) = m # replies es"
| "replies (_ # es) = replies es"

fun prompts :: "effect list \<Rightarrow> ustr list" where
  "prompts [] = []"
| "prompts (Generate p # es) = p # prompts es"
| "prompts (_ # es) = prompts es"


section \<open>A concrete world\<close>

text \<open>
  A world for evaluating the handlers: file names are split at their last dot, \<open>lower\<close>
  lowers ASCII letters, the PDF library rejects every file as corrupt, the other
  extraction libraries read \<open>raw\<close>, and the backend gives \<open>resp\<close>.
\<close>

definition demo_splitext :: "ustr \<Rightarrow> ustr \<times> ustr" where
  "demo_splitext p =
     (let e = takeWhile (\<lambda>c. c \<noteq> 0x2E) (rev p)
      in if 0x2E \<in> set p then (take (length p - length e - 1) p, 0x2E # rev e) else (p, []))"

definition demo_lower :: "ustr \<Rightarrow> ustr" where
  "demo_lower t = map (\<lambda>c. if 0x41 \<le> c \<and> c \<le> 0x5A then c + 0x20 else c) t"

definition corrupt_pdf :: exn where
  "corrupt_pdf = Exn True (ascii ''FileDataError()'')"

definition demo_world :: "ustr \<Rightarrow> exn + ustr option \<Rightarrow> world" where
  "demo_world raw resp =
     \<lparr>uuid4_hex = ascii ''3f2a9c0d5e7b41868a1c2d3e4f506172'',
      splitext = demo_splitext,
      lower = demo_lower,
      fitz_pages = (\<lambda>p. Inl corrupt_pdf),
      image_to_string = (\<lambda>p. Inr raw),
      docx_paragraphs = (\<lambda>p. Inr [raw]),
      read_txt = (\<lambda>p. Inr raw),
      generate_content = (\<lambda>p. resp)\<rparr>"

definition demo_document :: "string \<Rightarrow> int option \<Rightarrow> update" where
  "demo_document name sz =
     \<lparr>from_user_id = 7, msg_text = None,
      msg_document = Some \<lparr>file_name = Some (ascii name), file_size = sz\<rparr>,
      msg_photo = []\<rparr>"

definition demo_photo :: update where
  "demo_photo = \<lparr>from_user_id = 7, msg_text = None, msg_document = None, msg_photo = [1, 2]\<rparr>"

definition demo_message :: "ustr \<Rightarrow> update" where
  "demo_message t = \<lparr>from_user_id = 7, msg_text = Some t, msg_document = None, msg_photo = []\<rparr>"


section \<open>Properties of the text primitives\<close>

lemma no_adj_Cons:
  "no_adj a (x # xs) = ((xs = [] \<or> x \<noteq> a \<or> hd xs \<noteq> a) \<and> no_adj a xs)"
  by (cases xs) auto

lemma no_adj_append:
  "no_adj a (xs @ ys) =
     (no_adj a xs \<and> no_adj a ys \<and> (xs = [] \<or> ys = [] \<or> last xs \<noteq> a \<or> hd ys \<noteq> a))"
  by (induction xs rule: no_adj.induct) (auto simp: no_adj_Cons)

lemma no_adj_rev: "no_adj a (rev xs) = no_adj a xs"
  by (induction xs) (auto simp: no_adj_append no_adj_Cons hd_rev last_rev)

lemma no_adj_dropWhile: "no_adj a xs \<Longrightarrow> no_adj a (dropWhile P xs)"
  by (induction xs) (auto simp: no_adj_Cons)

lemma no_adj_strip: "no_adj a xs \<Longrightarrow> no_adj a (strip xs)"
  by (simp add: strip_def no_adj_rev no_adj_dropWhile)

text \<open>\<open>no_adj\<close> says that the doubled code point is not a substring.\<close>

lemma no_adj_iff: "no_adj a xs = (\<nexists>us vs. xs = us @ [a, a] @ vs)"
proof (induction a xs rule: no_adj.induct)
  case (1 a x y ys)
  show ?case
  proof
    assume h: "no_adj a (x # y # ys)"
    show "\<nexists>us vs. x # y # ys = us @ [a, a] @ vs"
    proof
      assume "\<exists>us vs. x # y # ys = us @ [a, a] @ vs"
      then obtain us vs where e: "x # y # ys = us @ [a, a] @ vs" by blast
      show False
      proof (cases us)
        case Nil
        with e h show False by auto
      next
        case (Cons u us')
        with e have "y # ys = us' @ [a, a] @ vs" by simp
        then have "\<exists>us vs. y # ys = us @ [a, a] @ vs" by blast
        moreover from h have "no_adj a (y # ys)" by simp
        ultimately show False using 1 by blast
      qed
    qed
  next
    assume h: "\<nexists>us vs. x # y # ys = us @ [a, a] @ vs"
    have "x \<noteq> a \<or> y \<noteq> a"
    proof (rule ccontr)
      assume "\<not> (x \<noteq> a \<or> y \<noteq> a)"
      then have "x # y # ys = [] @ [a, a] @ ys" by simp
      with h show False by blast
    qed
    moreover have "\<nexists>us vs. y # ys = us @ [a, a] @ vs"
    proof
      assume "\<exists>us vs. y # ys = us @ [a, a] @ vs"
      then obtain us vs where "y # ys = us @ [a, a] @ vs" by blast
      then have "x # y # ys = (x # us) @ [a, a] @ vs" by simp
      with h show False by blast
    qed
    ultimately show "no_adj a (x # y # ys)" using 1 by simp
  qed
qed (auto simp: append_eq_Cons_conv)

lemma set_re_sub_plus: "set (re_sub_plus cls r xs) \<subseteq> insert r (set xs)"
proof (induction cls r xs rule: re_sub_plus.induct)
  case (1 cls r)
  show ?case by simp
next
  case (2 cls r c cs)
  have "set (dropWhile cls cs) \<subseteq> set cs" by (auto dest: set_dropWhileD)
  with 2 show ?case by auto
qed

lemma re_sub_plus_removes: "cls a \<Longrightarrow> a \<noteq> r \<Longrightarrow> a \<notin> set (re_sub_plus cls r xs)"
  by (induction cls r xs rule: re_sub_plus.induct) auto

lemma hd_re_sub_plus: "xs \<noteq> [] \<Longrightarrow> \<not> cls (hd xs) \<Longrightarrow> hd (re_sub_plus cls r xs) = hd xs"
  by (cases xs) auto

lemma no_adj_re_sub_plus: "cls r \<Longrightarrow> no_adj r (re_sub_plus cls r xs)"
proof (induction cls r xs rule: re_sub_plus.induct)
  case (1 cls r)
  show ?case by simp
next
  case (2 cls r c cs)
  show ?case
  proof (cases "cls c")
    case True
    let ?d = "dropWhile cls cs"
    have "re_sub_plus cls r ?d = [] \<or> hd (re_sub_plus cls r ?d) \<noteq> r"
    proof (cases "?d = []")
      case True
      then have "re_sub_plus cls r ?d = []" by (simp only: re_sub_plus.simps)
      then show ?thesis ..
    next
      case False
      then have n: "\<not> cls (hd ?d)" by (rule hd_dropWhile)
      with False have "hd (re_sub_plus cls r ?d) = hd ?d" by (rule hd_re_sub_plus)
      with n "2.prems" show ?thesis by auto
    qed
    with True 2 show ?thesis by (auto simp: no_adj_Cons)
  next
    case False
    with 2 have "c \<noteq> r" by auto
    with False 2 show ?thesis by (auto simp: no_adj_Cons)
  qed
qed

lemma re_sub_plus_fix:
  "\<forall>c\<in>set xs. cls c \<longrightarrow> c = r \<Longrightarrow> no_adj r xs \<Longrightarrow> re_sub_plus cls r xs = xs"
proof (induction cls r xs rule: re_sub_plus.induct)
  case (1 cls r)
  show ?case by simp
next
  case (2 cls r c cs)
  from "2.prems" have t: "\<forall>c\<in>set cs. cls c \<longrightarrow> c = r" and n: "no_adj r cs"
    by (auto simp: no_adj_Cons)
  show ?case
  proof (cases "cls c")
    case True
    with "2.prems" have c: "c = r" by auto
    have d: "dropWhile cls cs = cs"
    proof (cases cs)
      case Nil
      then show ?thesis by simp
    next
      case (Cons d ds)
      with "2.prems" c have "\<not> cls d" by auto
      with Cons show ?thesis by simp
    qed
    from "2.IH"(1) [OF True] t n d have "re_sub_plus cls r cs = cs" by simp
    with True c d show ?thesis by simp
  next
    case False
    with "2.IH"(2) t n show ?thesis by simp
  qed
qed

lemma set_sub_newlines: "set (sub_newlines xs) \<subseteq> set xs"
proof (induction xs rule: sub_newlines.induct)
  case (3 c d cs)
  have "set (dropWhile (\<lambda>x. x = NL) cs) \<subseteq> set cs" by (auto dest: set_dropWhileD)
  with 3 show ?case by auto
qed simp_all

lemma sub_newlines_Nil: "(sub_newlines xs = []) = (xs = [])"
  by (induction xs rule: sub_newlines.induct) auto

lemma hd_sub_newlines: "hd (sub_newlines xs) = hd xs"
  by (induction xs rule: sub_newlines.induct) auto

lemma no_adj_sub_newlines: "no_adj NL (sub_newlines xs)"
proof (induction xs rule: sub_newlines.induct)
  case (3 c d cs)
  show ?case
  proof (cases "c = NL \<and> d = NL")
    case True
    let ?r = "dropWhile (\<lambda>x. x = NL) cs"
    have "?r = [] \<or> hd ?r \<noteq> NL"
      using hd_dropWhile [of "\<lambda>x. x = NL" cs] by blast
    with True 3 show ?thesis by (auto simp: no_adj_Cons hd_sub_newlines sub_newlines_Nil)
  next
    case False
    with 3 have "no_adj NL (sub_newlines (d # cs))" by simp
    moreover have "hd (sub_newlines (d # cs)) = d" by (simp add: hd_sub_newlines)
    ultimately show ?thesis using False by (auto simp: no_adj_Cons)
  qed
qed simp_all

lemma no_adj_keep_sub_newlines: "a \<noteq> NL \<Longrightarrow> no_adj a xs \<Longrightarrow> no_adj a (sub_newlines xs)"
proof (induction xs rule: sub_newlines.induct)
  case (3 c d cs)
  show ?case
  proof (cases "c = NL \<and> d = NL")
    case True
    from "3.prems" have "no_adj a cs" by (simp add: no_adj_Cons)
    then have "no_adj a (dropWhile (\<lambda>x. x = NL) cs)" by (rule no_adj_dropWhile)
    with "3.IH"(1) [OF True] "3.prems"(1)
    have "no_adj a (sub_newlines (dropWhile (\<lambda>x. x = NL) cs))" by simp
    with True "3.prems"(1) show ?thesis by (simp add: no_adj_Cons)
  next
    case False
    from "3.prems" have "no_adj a (d # cs)" by simp
    with "3.IH"(2) [OF False] "3.prems"(1) have "no_adj a (sub_newlines (d # cs))" by simp
    moreover have "hd (sub_newlines (d # cs)) = d" by (simp add: hd_sub_newlines)
    ultimately show ?thesis using False "3.prems"(2) by (auto simp: no_adj_Cons)
  qed
qed simp_all

lemma sub_newlines_fix: "no_adj NL xs \<Longrightarrow> sub_newlines xs = xs"
  by (induction xs rule: sub_newlines.induct) auto

lemma set_strip: "set (strip xs) \<subseteq> set xs"
proof -
  have "set (strip xs) \<subseteq> set (dropWhile is_space xs)"
    unfolding strip_def using set_dropWhileD [of _ is_space "rev (dropWhile is_space xs)"] by auto
  also have "\<dots> \<subseteq> set xs" using set_dropWhileD [of _ is_space xs] by auto
  finally show ?thesis .
qed

lemma strip_fix:
  "xs = [] \<or> (\<not> is_space (hd xs) \<and> \<not> is_space (last xs)) \<Longrightarrow> strip xs = xs"
proof (cases xs)
  case Nil
  then show ?thesis by (simp add: strip_def)
next
  case (Cons y ys)
  assume "xs = [] \<or> (\<not> is_space (hd xs) \<and> \<not> is_space (last xs))"
  with Cons have h: "\<not> is_space (hd xs)" and l: "\<not> is_space (last xs)" by auto
  from h Cons have 1: "dropWhile is_space xs = xs" by simp
  from Cons have "rev xs \<noteq> []" by simp
  moreover from l have "\<not> is_space (hd (rev xs))" by (simp add: hd_rev)
  ultimately have "dropWhile is_space (rev xs) = rev xs" by (cases "rev xs") auto
  with 1 show ?thesis by (simp add: strip_def)
qed

lemma strip_ends:
  "strip xs = [] \<or> (\<not> is_space (hd (strip xs)) \<and> \<not> is_space (last (strip xs)))"
proof (cases "strip xs = []")
  case True
  then show ?thesis by simp
next
  case False
  let ?d = "dropWhile is_space xs"
  let ?r = "dropWhile is_space (rev ?d)"
  from False have r: "?r \<noteq> []" by (simp add: strip_def)
  then have l: "\<not> is_space (hd ?r)" by (rule hd_dropWhile)
  have "last (strip xs) = hd ?r" using r by (simp add: strip_def last_rev)
  with l have 1: "\<not> is_space (last (strip xs))" by simp
  have d: "?d \<noteq> []"
  proof
    assume "?d = []"
    then have "?r = []" by (simp only: rev.simps dropWhile.simps)
    with r show False ..
  qed
  then have hd: "\<not> is_space (hd ?d)" by (rule hd_dropWhile)
  have "rev ?d = takeWhile is_space (rev ?d) @ ?r" by simp
  then have "?d = rev ?r @ rev (takeWhile is_space (rev ?d))"
    by (metis rev_append rev_rev_ident)
  with r have "hd ?d = hd (rev ?r)" by (metis hd_append2 rev_is_Nil_conv)
  with hd have "\<not> is_space (hd (strip xs))" by (simp add: strip_def)
  with 1 show ?thesis by simp
qed

lemma replace_char_removes: "a \<noteq> b \<Longrightarrow> a \<notin> set (replace_char a b t)"
  by (auto simp: replace_char_def)

lemma set_replace_char: "set (replace_char a b t) \<subseteq> insert b (set t)"
  by (auto simp: replace_char_def)

lemma replace_char_fix: "a \<notin> set t \<Longrightarrow> replace_char a b t = t"
  by (induction t) (auto simp: replace_char_def)

section \<open>The normal form\<close>

lemma normalize_props:
  "YEH_ARABIC \<notin> set (normalize_persian t)"
  "KAF_ARABIC \<notin> set (normalize_persian t)"
  "TAB \<notin> set (normalize_persian t)"
  "no_adj SP (normalize_persian t)"
  "no_adj NL (normalize_persian t)"
proof -
  let ?a = "replace_char YEH_ARABIC YEH_FARSI t"
  let ?b = "replace_char KAF_ARABIC KEHEH ?a"
  let ?c = "re_sub_plus is_hspace SP ?b"
  let ?d = "sub_newlines ?c"
  have n: "normalize_persian t = strip ?d" by (simp add: normalize_persian_def)
  have a: "YEH_ARABIC \<notin> set ?a" by (rule replace_char_removes) simp
  have b: "YEH_ARABIC \<notin> set ?b \<and> KAF_ARABIC \<notin> set ?b"
    using a set_replace_char [of KAF_ARABIC KEHEH ?a]
      replace_char_removes [of KAF_ARABIC KEHEH ?a]
    by auto
  have c: "YEH_ARABIC \<notin> set ?c \<and> KAF_ARABIC \<notin> set ?c"
    using b set_re_sub_plus [of is_hspace SP ?b] by auto
  have d: "set (strip ?d) \<subseteq> set ?c"
    using set_strip [of ?d] set_sub_newlines [of ?c] by blast
  have tab: "TAB \<notin> set ?c" by (rule re_sub_plus_removes) (simp_all add: is_hspace_def)
  from c d n show "YEH_ARABIC \<notin> set (normalize_persian t)" by auto
  from c d n show "KAF_ARABIC \<notin> set (normalize_persian t)" by auto
  from d n tab show "TAB \<notin> set (normalize_persian t)" by auto
  have "no_adj SP ?c" by (rule no_adj_re_sub_plus) (simp add: is_hspace_def)
  then have "no_adj SP ?d" by (rule no_adj_keep_sub_newlines [rotated]) simp
  then show "no_adj SP (normalize_persian t)" unfolding n by (rule no_adj_strip)
  have "no_adj NL ?d" by (rule no_adj_sub_newlines)
  then show "no_adj NL (normalize_persian t)" unfolding n by (rule no_adj_strip)
qed

lemma normalize_ends:
  "normalize_persian t = [] \<or>
   (\<not> is_space (hd (normalize_persian t)) \<and> \<not> is_space (last (normalize_persian t)))"
  unfolding normalize_persian_def by (rule strip_ends)

text \<open>
  C2. The normalizer is idempotent: normalizing an already normalized text, the empty
  text included, changes nothing.
\<close>

theorem normalize_persian_idempotent:
  "normalize_persian (normalize_persian t) = normalize_persian t"
proof -
  let ?n = "normalize_persian t"
  have 1: "replace_char YEH_ARABIC YEH_FARSI ?n = ?n"
    by (rule replace_char_fix) (rule normalize_props)
  have 2: "replace_char KAF_ARABIC KEHEH ?n = ?n"
    by (rule replace_char_fix) (rule normalize_props)
  have "\<forall>c\<in>set ?n. is_hspace c \<longrightarrow> c = SP"
    using normalize_props(3) [of t] by (auto simp: is_hspace_def)
  then have 3: "re_sub_plus is_hspace SP ?n = ?n"
    by (rule re_sub_plus_fix) (rule normalize_props)
  have 4: "sub_newlines ?n = ?n"
    by (rule sub_newlines_fix) (rule normalize_props)
  have 5: "strip ?n = ?n"
    by (rule strip_fix) (rule normalize_ends)
  have "normalize_persian ?n =
      strip (sub_newlines (re_sub_plus is_hspace SP
        (replace_char KAF_ARABIC KEHEH (replace_char YEH_ARABIC YEH_FARSI ?n))))"
    by (simp only: normalize_persian_def)
  also have "\<dots> = ?n" by (simp only: 1 2 3 4 5)
  finally show ?thesis .
qed

text \<open>
  C3. The output of the normalizer never contains two consecutive newline characters:
  it cannot be split around the substring \<open>"\n\n"\<close>.
\<close>

theorem normalize_persian_no_double_newline:
  "\<nexists>us vs. normalize_persian t = us @ [NL, NL] @ vs"
  using no_adj_iff [of NL "normalize_persian t"] normalize_props(5) [of t] by blast

text \<open>
  C4. The size gate is exact at 20 MiB: 20 * 1024 * 1024 bytes is not too large, one
  byte more is, and in general a size is too large exactly when it exceeds 20 MiB.
\<close>

theorem file_too_large_boundary:
  "\<not> file_too_large (20 * 1024 * 1024) \<and> file_too_large (20 * 1024 * 1024 + 1)
   \<and> (\<forall>n. file_too_large n = (n > 20 * 1024 * 1024))"
  by (simp add: file_too_large_def MAX_FILE_MB_def)


section \<open>The prompt\<close>

lemma strip_wrapped:
  assumes "is_space a" "\<not> is_space h" "q \<noteq> []" "\<not> is_space (last q)" "is_space b"
  shows "strip (a # h # m @ q @ [b]) = h # m @ q"
proof -
  from assms(3) obtain q' l where q: "q = q' @ [l]" by (cases q rule: rev_cases) auto
  with assms(4) have l: "\<not> is_space l" by simp
  have "dropWhile is_space (a # h # m @ q @ [b]) = h # m @ q @ [b]"
    using assms(1,2) by simp
  moreover have "rev (h # m @ q @ [b]) = b # l # rev (h # m @ q')"
    by (simp add: q)
  moreover have "dropWhile is_space (b # l # rev (h # m @ q')) = l # rev (h # m @ q')"
    using assms(5) l by simp
  moreover have "rev (l # rev (h # m @ q')) = h # m @ q"
    by (simp add: q)
  ultimately show ?thesis by (simp only: strip_def)
qed

lemma GROUNDED_HEAD_split: "GROUNDED_HEAD = NL # 0x62A # drop 2 GROUNDED_HEAD"
  by (simp add: GROUNDED_HEAD_def)

lemma length_GROUNDED: "length (tl GROUNDED_HEAD) = 147" "length GROUNDED_MID = 8"
  by (simp_all add: GROUNDED_HEAD_def GROUNDED_MID_def)

lemma stripped_last: "strip x \<noteq> [] \<Longrightarrow> \<not> is_space (last (strip x))"
  using strip_ends [of x] by simp

lemma question_prompt_grounded:
  assumes "USER_TEXTS u = Some stored" "strip x \<noteq> []"
  shows "question_prompt USER_TEXTS u (strip x) =
           tl GROUNDED_HEAD @ take MAX_CONTEXT_CHARS stored @ GROUNDED_MID @ strip x"
proof -
  let ?c = "take MAX_CONTEXT_CHARS stored"
  let ?m = "drop 2 GROUNDED_HEAD @ ?c @ GROUNDED_MID"
  have a: "strip (NL # 0x62A # ?m @ strip x @ [NL]) = 0x62A # ?m @ strip x"
    using assms(2) by (intro strip_wrapped stripped_last) (simp_all add: is_space_def)
  have b: "GROUNDED_HEAD @ ?c @ GROUNDED_MID @ strip x @ [NL] = NL # 0x62A # ?m @ strip x @ [NL]"
    by (subst GROUNDED_HEAD_split) simp
  have c: "tl GROUNDED_HEAD @ ?c @ GROUNDED_MID @ strip x = 0x62A # ?m @ strip x"
    by (subst GROUNDED_HEAD_split) simp
  have "question_prompt USER_TEXTS u (strip x) =
      strip (GROUNDED_HEAD @ ?c @ GROUNDED_MID @ strip x @ [NL])"
    using assms(1) by (simp add: question_prompt_def)
  also have "\<dots> = strip (NL # 0x62A # ?m @ strip x @ [NL])" by (simp only: b)
  also have "\<dots> = 0x62A # ?m @ strip x" by (rule a)
  also have "\<dots> = tl GROUNDED_HEAD @ ?c @ GROUNDED_MID @ strip x" by (rule c [symmetric])
  finally show ?thesis .
qed

lemma prompts_handle_question:
  "strip (or_empty (msg_text upd)) \<noteq> [] \<Longrightarrow>
   prompts (effects (handle_question w USER_TEXTS upd)) =
     [question_prompt USER_TEXTS (from_user_id upd) (strip (or_empty (msg_text upd)))]"
  by (simp add: handle_question_def Let_def returns_def raises_def split: sum.splits)

section \<open>The concrete world, evaluated\<close>

lemma absent_no_adj: "a \<notin> set xs \<Longrightarrow> no_adj a xs"
  by (induction xs) (auto simp: no_adj_Cons)

lemma normalize_letters: "normalize_persian (replicate n 0x61) = replicate n 0x61"
proof -
  let ?t = "replicate n (0x61::nat)"
  have 1: "replace_char YEH_ARABIC YEH_FARSI ?t = ?t" by (rule replace_char_fix) simp
  have 2: "replace_char KAF_ARABIC KEHEH ?t = ?t" by (rule replace_char_fix) simp
  have 3: "re_sub_plus is_hspace SP ?t = ?t"
    by (rule re_sub_plus_fix) (simp_all add: is_hspace_def absent_no_adj)
  have 4: "sub_newlines ?t = ?t" by (rule sub_newlines_fix) (simp add: absent_no_adj)
  have 5: "strip ?t = ?t" by (rule strip_fix) (cases n, simp_all add: is_space_def)
  show ?thesis by (simp only: normalize_persian_def 1 2 3 4 5)
qed

lemmas demo_defs =
  demo_world_def demo_document_def demo_photo_def demo_message_def demo_splitext_def
  demo_lower_def document_path_def photo_path_def safe_unique_path_def DOWNLOAD_DIR_def
  ascii_def or_empty_def is_name_char_def extract_text_def size_rejected_def
  file_too_large_def MAX_FILE_MB_def Let_def

lemma demo_document_txt:
  "extract_text (demo_world (replicate n 0x61) resp)
     (document_path (demo_world (replicate n 0x61) resp)
        \<lparr>file_name = Some (ascii ''notes.txt''), file_size = sz\<rparr>) = Inr (replicate n 0x61)"
  by (simp add: demo_defs normalize_letters)

lemma demo_document_pdf:
  "extract_text (demo_world raw resp)
     (document_path (demo_world raw resp)
        \<lparr>file_name = Some (ascii ''scan.pdf''), file_size = sz\<rparr>) = Inl corrupt_pdf"
  by (simp add: demo_defs)

lemma demo_photo_jpg:
  "extract_text (demo_world (replicate n 0x61) resp)
     (photo_path (demo_world (replicate n 0x61) resp)) = Inr (replicate n 0x61)"
  by (simp add: demo_defs normalize_letters)

lemma demo_question: "strip (or_empty (msg_text (demo_message (ascii ''why?'')))) = ascii ''why?''"
  by (simp add: demo_defs strip_def is_space_def)

lemma demo_question_nonempty:
  "strip (or_empty (msg_text (demo_message (ascii ''why?'')))) \<noteq> []"
  unfolding demo_question by (simp add: ascii_def)


section \<open>Question handling\<close>

text \<open>
  C1. When the user has a stored text, the one prompt sent for a non-empty question is
  the grounded template around the first \<open>MAX_CONTEXT_CHARS = 15000\<close> code points of
  that text, followed by the question; the embedded context never exceeds 15000 code
  points, and it has exactly 15000 when the stored text is longer.
\<close>

theorem grounded_prompt_truncates_context:
  assumes "USER_TEXTS (from_user_id upd) = Some stored"
    and "strip (or_empty (msg_text upd)) \<noteq> []"
  shows "prompts (effects (handle_question w USER_TEXTS upd)) =
           [tl GROUNDED_HEAD @ take MAX_CONTEXT_CHARS stored @ GROUNDED_MID
              @ strip (or_empty (msg_text upd))]
         \<and> MAX_CONTEXT_CHARS = 15000
         \<and> length (take MAX_CONTEXT_CHARS stored) = min 15000 (length stored)
         \<and> length (question_prompt USER_TEXTS (from_user_id upd) (strip (or_empty (msg_text upd))))
             = 155 + min 15000 (length stored) + length (strip (or_empty (msg_text upd)))"
proof -
  let ?q = "strip (or_empty (msg_text upd))"
  have p: "question_prompt USER_TEXTS (from_user_id upd) ?q =
      tl GROUNDED_HEAD @ take MAX_CONTEXT_CHARS stored @ GROUNDED_MID @ ?q"
    using assms by (rule question_prompt_grounded)
  have "prompts (effects (handle_question w USER_TEXTS upd)) =
      [question_prompt USER_TEXTS (from_user_id upd) ?q]"
    using assms(2) by (rule prompts_handle_question)
  with p have 1: "prompts (effects (handle_question w USER_TEXTS upd)) =
      [tl GROUNDED_HEAD @ take MAX_CONTEXT_CHARS stored @ GROUNDED_MID @ ?q]"
    by (simp only:)
  have 2: "length (take MAX_CONTEXT_CHARS stored) = min 15000 (length stored)"
    by (simp add: MAX_CONTEXT_CHARS_def min.commute)
  have 3: "length (question_prompt USER_TEXTS (from_user_id upd) ?q) =
      155 + min 15000 (length stored) + length ?q"
    unfolding p length_append length_GROUNDED 2 by simp
  from 1 2 3 show ?thesis by (simp add: MAX_CONTEXT_CHARS_def)
qed

theorem grounded_prompt_truncates_context_witness:
  "prompts (effects (handle_question (demo_world [] (Inr (Some (ascii ''ok''))))
      [7 \<mapsto> replicate 15001 0x61] (demo_message (ascii ''why?'')))) =
     [tl GROUNDED_HEAD @ replicate 15000 0x61 @ GROUNDED_MID @ ascii ''why?'']
   \<and> length (replicate 15001 (0x61::nat)) = 15001"
proof -
  let ?upd = "demo_message (ascii ''why?'')"
  have u: "[7 \<mapsto> replicate 15001 (0x61::nat)] (from_user_id ?upd) = Some (replicate 15001 0x61)"
    by (simp add: demo_message_def)
  have q: "strip (or_empty (msg_text ?upd)) \<noteq> []"
    by (rule demo_question_nonempty)
  have t: "take MAX_CONTEXT_CHARS (replicate 15001 (0x61::nat)) = replicate 15000 0x61"
    by (simp add: MAX_CONTEXT_CHARS_def)
  have "prompts (effects (handle_question (demo_world [] (Inr (Some (ascii ''ok''))))
      [7 \<mapsto> replicate 15001 0x61] ?upd)) =
     [tl GROUNDED_HEAD @ take MAX_CONTEXT_CHARS (replicate 15001 0x61) @ GROUNDED_MID
        @ strip (or_empty (msg_text ?upd))]"
    using grounded_prompt_truncates_context
      [where USER_TEXTS = "[7 \<mapsto> replicate 15001 0x61]" and upd = ?upd
        and stored = "replicate 15001 0x61", OF u q]
    by (rule conjunct1)
  then show ?thesis by (simp only: t demo_question length_replicate simp_thms)
qed

text \<open>
  C8. A failure of the generation call that is an \<open>Exception\<close> does not leave the
  question handler: the handler returns, the session store is untouched, the cause is
  printed, the backend was called once, and the user receives the fixed retry
  invitation, whatever the exception holds. When the backend answers with nothing (no
  text, or only whitespace), the user receives the fixed "no answer produced" message.
\<close>

theorem backend_failure_contained:
  assumes "strip (or_empty (msg_text upd)) \<noteq> []"
  shows "(generate_content w
            (question_prompt USER_TEXTS (from_user_id upd) (strip (or_empty (msg_text upd))))
            = Inl e \<and> is_Exception e \<longrightarrow>
          raised (handle_question w USER_TEXTS upd) = None
          \<and> store (handle_question w USER_TEXTS upd) = USER_TEXTS
          \<and> effects (handle_question w USER_TEXTS upd) =
              [Reply MSG_PREPARING,
               Generate (question_prompt USER_TEXTS (from_user_id upd)
                 (strip (or_empty (msg_text upd)))),
               Print [ascii ''Gemini error:'', repr e],
               Reply MSG_GEMINI_ERROR]
          \<and> replies (effects (handle_question w USER_TEXTS upd)) =
              [MSG_PREPARING, MSG_GEMINI_ERROR])
       \<and> (generate_content w
            (question_prompt USER_TEXTS (from_user_id upd) (strip (or_empty (msg_text upd))))
            = Inr r \<and> strip (or_empty r) = [] \<longrightarrow>
          raised (handle_question w USER_TEXTS upd) = None
          \<and> replies (effects (handle_question w USER_TEXTS upd)) =
              [MSG_PREPARING, MSG_NO_ANSWER])"
  using assms
  by (simp add: handle_question_def gemini_answer_def Let_def returns_def raises_def)

theorem backend_failure_contained_witness:
  "raised (handle_question (demo_world [] (Inl corrupt_pdf)) Map.empty
      (demo_message (ascii ''why?''))) = None
   \<and> replies (effects (handle_question (demo_world [] (Inl corrupt_pdf)) Map.empty
      (demo_message (ascii ''why?'')))) = [MSG_PREPARING, MSG_GEMINI_ERROR]
   \<and> replies (effects (handle_question (demo_world [] (Inr (Some [SP, NL]))) Map.empty
      (demo_message (ascii ''why?'')))) = [MSG_PREPARING, MSG_NO_ANSWER]"
proof -
  let ?upd = "demo_message (ascii ''why?'')"
  have q: "strip (or_empty (msg_text ?upd)) \<noteq> []"
    by (rule demo_question_nonempty)
  have e: "is_Exception corrupt_pdf" by (simp add: corrupt_pdf_def)
  have g: "generate_content (demo_world [] resp) p = resp" for resp p
    by (simp add: demo_world_def)
  have b: "strip (or_empty (Some [SP, NL])) = []"
    by (simp add: strip_def or_empty_def is_space_def)
  from backend_failure_contained [OF q, of "demo_world [] (Inl corrupt_pdf)" Map.empty
      corrupt_pdf "Some [SP, NL]"]
    backend_failure_contained [OF q, of "demo_world [] (Inr (Some [SP, NL]))" Map.empty
      corrupt_pdf "Some [SP, NL]"]
  show ?thesis by (simp add: g e b)
qed

section \<open>Forgetting\<close>

text \<open>
  C7. After a text is stored for a user, the forget button removes the entry and leaves
  the other users' entries; on a store without an entry for the user the button changes
  nothing, and it never raises. A non-empty question asked after the forget gets the
  open-domain prompt: the instruction followed by the question, with nothing of the
  forgotten text.
\<close>

theorem forget_clears_session:
  assumes "strip (or_empty (msg_text forget)) = BTN_FORGET"
    and "from_user_id forget = u" and "from_user_id ask = u"
    and "strip (or_empty (msg_text ask)) \<noteq> []"
  shows "store (handle_buttons (S(u \<mapsto> A)) forget) u = None
       \<and> store (handle_buttons (S(u \<mapsto> A)) forget) = S(u := None)
       \<and> (S u = None \<longrightarrow> store (handle_buttons S forget) = S)
       \<and> raised (handle_buttons S forget) = None
       \<and> prompts (effects (handle_question w (store (handle_buttons (S(u \<mapsto> A)) forget)) ask))
           = [OPEN_HEAD @ strip (or_empty (msg_text ask))]"
proof -
  have 1: "store (handle_buttons T forget) = T(u := None)" for T
    using assms(1,2) by (simp add: handle_buttons_def Let_def returns_def)
  have 2: "raised (handle_buttons S forget) = None"
    by (simp add: handle_buttons_def Let_def returns_def)
  have 3: "S u = None \<Longrightarrow> S(u := None) = S" by (rule ext) simp
  have "prompts (effects (handle_question w ((S(u \<mapsto> A))(u := None)) ask)) =
      [question_prompt ((S(u \<mapsto> A))(u := None)) (from_user_id ask)
         (strip (or_empty (msg_text ask)))]"
    using assms(4) by (rule prompts_handle_question)
  also have "\<dots> = [OPEN_HEAD @ strip (or_empty (msg_text ask))]"
    using assms(3) by (simp add: question_prompt_def)
  finally have 4: "prompts (effects (handle_question w ((S(u \<mapsto> A))(u := None)) ask)) =
      [OPEN_HEAD @ strip (or_empty (msg_text ask))]" .
  from 1 2 3 4 show ?thesis by simp
qed

theorem forget_clears_session_witness:
  "store (handle_buttons [7 \<mapsto> replicate 60 0x61] (demo_message BTN_FORGET)) 7 = None
   \<and> store (handle_buttons Map.empty (demo_message BTN_FORGET)) = Map.empty
   \<and> raised (handle_buttons Map.empty (demo_message BTN_FORGET)) = None
   \<and> prompts (effects (handle_question (demo_world [] (Inr None))
        (store (handle_buttons [7 \<mapsto> replicate 60 0x61] (demo_message BTN_FORGET)))
        (demo_message (ascii ''why?'')))) = [OPEN_HEAD @ ascii ''why?'']"
proof -
  have f: "strip (or_empty (msg_text (demo_message BTN_FORGET))) = BTN_FORGET"
    by (simp add: demo_message_def or_empty_def strip_def BTN_FORGET_def is_space_def)
  have u: "from_user_id (demo_message t) = 7" for t by (simp add: demo_message_def)
  have q: "strip (or_empty (msg_text (demo_message (ascii ''why?'')))) \<noteq> []"
    by (rule demo_question_nonempty)
  note t = forget_clears_session [OF f u u q, of Map.empty "replicate 60 0x61"
      "demo_world [] (Inr None)"]
  have a: "store (handle_buttons [7 \<mapsto> replicate 60 0x61] (demo_message BTN_FORGET)) 7 = None"
    using t by (rule conjunct1)
  have b: "store (handle_buttons Map.empty (demo_message BTN_FORGET)) = Map.empty"
    using t by simp
  have c: "raised (handle_buttons Map.empty (demo_message BTN_FORGET)) = None"
    using t by simp
  have d: "prompts (effects (handle_question (demo_world [] (Inr None))
        (store (handle_buttons [7 \<mapsto> replicate 60 0x61] (demo_message BTN_FORGET)))
        (demo_message (ascii ''why?'')))) = [OPEN_HEAD @ ascii ''why?'']"
    using t [THEN conjunct2, THEN conjunct2, THEN conjunct2, THEN conjunct2]
    by (simp only: demo_question)
  from a b c d show ?thesis by (intro conjI)
qed


section \<open>Document and photo handling\<close>

lemma demo_document_fields:
  "msg_document (demo_document name sz) = Some \<lparr>file_name = Some (ascii name), file_size = sz\<rparr>"
  "from_user_id (demo_document name sz) = 7"
  "msg_photo demo_photo \<noteq> []"
  "from_user_id demo_photo = 7"
  by (simp_all add: demo_document_def demo_photo_def)

lemma demo_size_accepted:
  "\<not> size_rejected \<lparr>file_name = n, file_size = Some 1024\<rparr>"
  "\<not> size_rejected \<lparr>file_name = n, file_size = Some 0\<rparr>"
  "\<not> size_rejected \<lparr>file_name = n, file_size = None\<rparr>"
  by (simp_all add: size_rejected_def file_too_large_def MAX_FILE_MB_def)

lemma messages_distinct:
  "MSG_NO_TEXT \<noteq> MSG_EXTRACTED" "MSG_NO_TEXT_PHOTO \<noteq> MSG_EXTRACTED"
  "MSG_NO_TEXT \<noteq> MSG_EXTRACTING"
  "MSG_TOO_LARGE \<noteq> MSG_EXTRACTING" "MSG_TOO_LARGE \<noteq> MSG_NO_TEXT"
  "MSG_TOO_LARGE \<noteq> MSG_EXTRACTED"
  by (simp_all add: MSG_NO_TEXT_def MSG_NO_TEXT_PHOTO_def MSG_EXTRACTED_def MSG_EXTRACTING_def
      MSG_TOO_LARGE_def MSG_TOO_LARGE_PREFIX_def)

text \<open>
  C5. The usability threshold is 50 code points: when the extraction of a document that
  passed the size gate, or of a photo, gives a text shorter than 50, the store is left as
  it was and the reply is the extraction failure message; when the text has 50 or more,
  it is stored for the sender and the reply is the success message.
\<close>

theorem usability_threshold_is_50:
  "(msg_document upd = Some doc \<and> \<not> size_rejected doc
      \<and> extract_text w (document_path w doc) = Inr text \<longrightarrow>
      store (handle_document w USER_TEXTS upd) =
        (if length text < 50 then USER_TEXTS else USER_TEXTS(from_user_id upd \<mapsto> text))
      \<and> replies (effects (handle_document w USER_TEXTS upd)) =
        [MSG_EXTRACTING, if length text < 50 then MSG_NO_TEXT else MSG_EXTRACTED])
   \<and> (msg_photo upd \<noteq> [] \<and> extract_text w (photo_path w) = Inr text \<longrightarrow>
      store (handle_photo w USER_TEXTS upd) =
        (if length text < 50 then USER_TEXTS else USER_TEXTS(from_user_id upd \<mapsto> text))
      \<and> replies (effects (handle_photo w USER_TEXTS upd)) =
        [MSG_OCR, if length text < 50 then MSG_NO_TEXT_PHOTO else MSG_EXTRACTED])
   \<and> MSG_NO_TEXT \<noteq> MSG_EXTRACTED \<and> MSG_NO_TEXT_PHOTO \<noteq> MSG_EXTRACTED"
  by (simp add: handle_document_def handle_photo_def Let_def returns_def messages_distinct)

theorem usability_threshold_is_50_witness:
  "store (handle_document (demo_world (replicate 49 0x61) (Inr None)) Map.empty
      (demo_document ''notes.txt'' (Some 1024))) 7 = None
   \<and> store (handle_document (demo_world (replicate 50 0x61) (Inr None)) Map.empty
      (demo_document ''notes.txt'' (Some 1024))) 7 = Some (replicate 50 0x61)
   \<and> store (handle_photo (demo_world (replicate 49 0x61) (Inr None)) Map.empty demo_photo) 7
      = None
   \<and> store (handle_photo (demo_world (replicate 50 0x61) (Inr None)) Map.empty demo_photo) 7
      = Some (replicate 50 0x61)"
proof -
  let ?doc = "\<lparr>file_name = Some (ascii ''notes.txt''), file_size = Some 1024\<rparr>"
  let ?upd = "demo_document ''notes.txt'' (Some 1024)"
  let ?w = "\<lambda>n. demo_world (replicate n 0x61) (Inr None)"
  have d: "store (handle_document (?w n) Map.empty ?upd) =
      (if length (replicate n (0x61::nat)) < 50 then Map.empty
       else [from_user_id ?upd \<mapsto> replicate n 0x61])" for n
    using usability_threshold_is_50 [of ?upd ?doc "?w n" "replicate n 0x61" Map.empty]
    by (simp only: demo_document_fields demo_size_accepted demo_document_txt simp_thms)
  have p: "store (handle_photo (?w n) Map.empty demo_photo) =
      (if length (replicate n (0x61::nat)) < 50 then Map.empty
       else [from_user_id demo_photo \<mapsto> replicate n 0x61])" for n
    using usability_threshold_is_50 [of demo_photo ?doc "?w n" "replicate n 0x61" Map.empty]
    by (simp only: demo_document_fields demo_photo_jpg simp_thms)
  show ?thesis by (simp add: d p demo_document_fields)
qed

text \<open>
  C6. An extraction that gives a text shorter than the threshold leaves the session store
  exactly as it was, for every user (a stored text stays, an absent entry stays absent):
  the handler returns after the extraction failure reply and writes nothing.
\<close>

theorem short_extraction_keeps_session:
  "(msg_document upd = Some doc \<and> \<not> size_rejected doc
      \<and> extract_text w (document_path w doc) = Inr text \<and> length text < 50 \<longrightarrow>
      store (handle_document w USER_TEXTS upd) = USER_TEXTS
      \<and> raised (handle_document w USER_TEXTS upd) = None
      \<and> effects (handle_document w USER_TEXTS upd) =
          [Download (document_path w doc), Reply MSG_EXTRACTING,
           Extract (document_path w doc), Reply MSG_NO_TEXT])
   \<and> (msg_photo upd \<noteq> [] \<and> extract_text w (photo_path w) = Inr text \<and> length text < 50 \<longrightarrow>
      store (handle_photo w USER_TEXTS upd) = USER_TEXTS
      \<and> raised (handle_photo w USER_TEXTS upd) = None
      \<and> effects (handle_photo w USER_TEXTS upd) =
          [Download (photo_path w), Reply MSG_OCR, Extract (photo_path w),
           Reply MSG_NO_TEXT_PHOTO])"
  by (simp add: handle_document_def handle_photo_def Let_def returns_def)

theorem short_extraction_keeps_session_witness:
  "store (handle_document (demo_world (replicate 31 0x61) (Inr None))
      [7 \<mapsto> replicate 60 0x62] (demo_document ''notes.txt'' (Some 1024))) 7
     = Some (replicate 60 0x62)
   \<and> store (handle_document (demo_world (replicate 31 0x61) (Inr None)) Map.empty
      (demo_document ''notes.txt'' (Some 1024))) 7 = None
   \<and> store (handle_photo (demo_world (replicate 31 0x61) (Inr None))
      [7 \<mapsto> replicate 60 0x62] demo_photo) 7 = Some (replicate 60 0x62)"
proof -
  let ?doc = "\<lparr>file_name = Some (ascii ''notes.txt''), file_size = Some 1024\<rparr>"
  let ?upd = "demo_document ''notes.txt'' (Some 1024)"
  let ?w = "demo_world (replicate 31 0x61) (Inr None)"
  have l: "length (replicate 31 (0x61::nat)) < 50" by simp
  have d: "store (handle_document ?w S ?upd) = S" for S
    using short_extraction_keeps_session [of ?upd ?doc ?w "replicate 31 0x61" S]
    by (simp only: demo_document_fields demo_size_accepted demo_document_txt l simp_thms)
  have p: "store (handle_photo ?w S demo_photo) = S" for S
    using short_extraction_keeps_session [of demo_photo ?doc ?w "replicate 31 0x61" S]
    by (simp only: demo_document_fields demo_photo_jpg l simp_thms)
  show ?thesis by (simp add: d p)
qed

text \<open>
  C9, as the code has it. When the extraction of a document that passed the size gate
  raises, no handler catches the exception: it leaves \<open>handle_document\<close>, the only reply
  sent is the one announcing the extraction, and the session store is left as it was.
\<close>

theorem extraction_exception_escapes:
  assumes "msg_document upd = Some doc" and "\<not> size_rejected doc"
    and "extract_text w (document_path w doc) = Inl e"
  shows "raised (handle_document w USER_TEXTS upd) = Some e
       \<and> store (handle_document w USER_TEXTS upd) = USER_TEXTS
       \<and> replies (effects (handle_document w USER_TEXTS upd)) = [MSG_EXTRACTING]"
  using assms by (simp add: handle_document_def Let_def raises_def)

theorem extraction_exception_escapes_witness:
  "raised (handle_document (demo_world [] (Inr None)) [7 \<mapsto> replicate 60 0x62]
      (demo_document ''scan.pdf'' (Some 1024))) = Some corrupt_pdf
   \<and> store (handle_document (demo_world [] (Inr None)) [7 \<mapsto> replicate 60 0x62]
      (demo_document ''scan.pdf'' (Some 1024))) 7 = Some (replicate 60 0x62)"
  using extraction_exception_escapes
    [where upd = "demo_document ''scan.pdf'' (Some 1024)"
      and doc = "\<lparr>file_name = Some (ascii ''scan.pdf''), file_size = Some 1024\<rparr>"
      and w = "demo_world [] (Inr None)" and e = corrupt_pdf
      and USER_TEXTS = "[7 \<mapsto> replicate 60 0x62]"]
  by (simp add: demo_document_fields demo_size_accepted demo_document_pdf)

text \<open>
  C9, as the specification states it, fails on a corrupt PDF: the extraction raises, the
  exception leaves the handler, and the "no usable text" reply is never sent.
\<close>

theorem extraction_exception_not_converted:
  "extract_text (demo_world [] (Inr None))
      (document_path (demo_world [] (Inr None))
        \<lparr>file_name = Some (ascii ''scan.pdf''), file_size = Some 1024\<rparr>) = Inl corrupt_pdf
   \<and> raised (handle_document (demo_world [] (Inr None)) Map.empty
      (demo_document ''scan.pdf'' (Some 1024))) \<noteq> None
   \<and> MSG_NO_TEXT \<notin> set (replies (effects (handle_document (demo_world [] (Inr None)) Map.empty
      (demo_document ''scan.pdf'' (Some 1024)))))"
  by (simp add: handle_document_def Let_def raises_def demo_document_fields demo_size_accepted
      demo_document_pdf messages_distinct)

text \<open>
  C10. A document whose declared size is absent or zero is never rejected by the size
  gate, whatever the world holds: the handler goes on to the download and the
  extraction, and the "too large" reply is not sent.
\<close>

theorem undeclared_size_passes_gate:
  assumes "msg_document upd = Some doc"
    and "file_size doc = None \<or> file_size doc = Some 0"
  shows "\<not> size_rejected doc
       \<and> take 3 (effects (handle_document w USER_TEXTS upd)) =
           [Download (document_path w doc), Reply MSG_EXTRACTING, Extract (document_path w doc)]
       \<and> MSG_TOO_LARGE \<notin> set (replies (effects (handle_document w USER_TEXTS upd)))"
proof -
  from assms(2) have g: "\<not> size_rejected doc" by (auto simp: size_rejected_def)
  show ?thesis
  proof (cases "extract_text w (document_path w doc)")
    case (Inl e)
    with assms(1) g show ?thesis
      by (simp add: handle_document_def Let_def raises_def messages_distinct)
  next
    case (Inr extracted)
    with assms(1) g show ?thesis
      by (simp add: handle_document_def Let_def returns_def messages_distinct)
  qed
qed

theorem undeclared_size_passes_gate_witness:
  "take 3 (effects (handle_document (demo_world (replicate 50 0x61) (Inr None)) Map.empty
      (demo_document ''notes.txt'' None))) =
     [Download (document_path (demo_world (replicate 50 0x61) (Inr None))
        \<lparr>file_name = Some (ascii ''notes.txt''), file_size = None\<rparr>),
      Reply MSG_EXTRACTING,
      Extract (document_path (demo_world (replicate 50 0x61) (Inr None))
        \<lparr>file_name = Some (ascii ''notes.txt''), file_size = None\<rparr>)]
   \<and> MSG_TOO_LARGE \<notin> set (replies (effects (handle_document
        (demo_world (replicate 50 0x61) (Inr None)) Map.empty
        (demo_document ''notes.txt'' (Some 0)))))"
  using undeclared_size_passes_gate
    [where upd = "demo_document ''notes.txt'' None"
      and doc = "\<lparr>file_name = Some (ascii ''notes.txt''), file_size = None\<rparr>"
      and w = "demo_world (replicate 50 0x61) (Inr None)" and USER_TEXTS = Map.empty]
    undeclared_size_passes_gate
    [where upd = "demo_document ''notes.txt'' (Some 0)"
      and doc = "\<lparr>file_name = Some (ascii ''notes.txt''), file_size = Some 0\<rparr>"
      and w = "demo_world (replicate 50 0x61) (Inr None)" and USER_TEXTS = Map.empty]
  by (simp add: demo_document_fields)

end
